theory Spec2Isabelle
  imports Main "HOL-Library.Sublist"
begin

section \<open>Python strings\<close>

text \<open>
  A Python \<^verbatim>\<open>str\<close> is a sequence of Unicode code points; it is modelled as a list of
  natural numbers, so that the trademark glyphs removed by \<^verbatim>\<open>cleantxt\<close> (U+2122, U+00AE,
  U+2021) are single elements, as they are in Python. \<open>u\<close> embeds an ASCII literal.
\<close>

type_synonym ustr = "nat list"

definition u :: "string \<Rightarrow> ustr" where
  "u s = map of_char s"

text \<open>
  The code points for which \<^verbatim>\<open>str.isspace\<close> holds; \<^verbatim>\<open>str.split()\<close> and \<^verbatim>\<open>str.strip()\<close>
  without arguments work on exactly these.
\<close>

definition is_space :: "nat \<Rightarrow> bool" where
  "is_space c \<longleftrightarrow>
     (9 \<le> c \<and> c \<le> 13) \<or> (28 \<le> c \<and> c \<le> 32) \<or> c = 133 \<or> c = 160 \<or> c = 5760 \<or>
     (8192 \<le> c \<and> c \<le> 8202) \<or> c = 8232 \<or> c = 8233 \<or> c = 8239 \<or> c = 8287 \<or> c = 12288"

text \<open>\<^verbatim>\<open>s.strip()\<close> is \<open>py_strip is_space s\<close>; \<^verbatim>\<open>s.strip('/')\<close> is \<open>py_strip (\<lambda>c. c = 47) s\<close>.\<close>

definition py_strip :: "(nat \<Rightarrow> bool) \<Rightarrow> ustr \<Rightarrow> ustr" where
  "py_strip p s = rev (dropWhile p (rev (dropWhile p s)))"

text \<open>\<^verbatim>\<open>s.split()\<close>: the maximal runs of non-whitespace, in order; never an empty word.\<close>

function split_ws :: "ustr \<Rightarrow> ustr list" where
  "split_ws [] = []"
| "split_ws (c # cs) =
     (if is_space c then split_ws cs
      else (c # takeWhile (\<lambda>x. \<not> is_space x) cs) # split_ws (dropWhile (\<lambda>x. \<not> is_space x) cs))"
  by pat_completeness auto
termination
  by (relation "measure length") (auto simp: length_dropWhile_le less_Suc_eq_le)

text \<open>\<^verbatim>\<open>sep.join(ws)\<close>.\<close>

fun py_join :: "ustr \<Rightarrow> ustr list \<Rightarrow> ustr" where
  "py_join sep [] = []"
| "py_join sep [w] = w"
| "py_join sep (w # ws) = w @ sep @ py_join sep ws"

text \<open>
  \<^verbatim>\<open>s.replace(old, new)\<close>: the non-overlapping occurrences of \<open>old\<close>, found from the left,
  are replaced in one pass; the text produced is not scanned again. With an empty \<open>old\<close>
  Python inserts \<open>new\<close> before every character and at the end.
\<close>

function py_replace :: "ustr \<Rightarrow> ustr \<Rightarrow> ustr \<Rightarrow> ustr" where
  "py_replace old new [] = (if old = [] then new else [])"
| "py_replace old new (c # cs) =
     (if old = [] then new @ c # py_replace old new cs
      else if prefix old (c # cs) then new @ py_replace old new (drop (length old) (c # cs))
      else c # py_replace old new cs)"
  by pat_completeness auto
termination
  by (relation "measure (\<lambda>(old, new, s). length s)") (auto simp: neq_Nil_conv)

section \<open>The text normalizer\<close>

text \<open>\<^verbatim>\<open>BaseSpider.cleantxt\<close>, applied to a \<^verbatim>\<open>str\<close>.\<close>

definition cleantxt :: "ustr \<Rightarrow> ustr" where
  "cleantxt v0 =
     (let v1 = py_replace (u ''Intel'') [] v0;
          v2 = py_replace [0x2122] [] v1;
          v3 = py_replace [0xAE] [] v2;
          v4 = py_replace [0x2021] [] v3;
          v5 = py_join (u '' '') (split_ws v4)
      in py_strip is_space v5)"

text \<open>The guard of the \<^verbatim>\<open>v.replace\<close> call on line 75: \<^verbatim>\<open>cleantxt(None)\<close> raises.\<close>

datatype py_error =
    AttributeError
  | TypeError
  | KeyError
  | IndexError
  | ValueError ustr
  | CloseSpider ustr

definition cleantxt_call :: "ustr option \<Rightarrow> py_error + ustr" where
  "cleantxt_call v = (case v of None \<Rightarrow> Inl AttributeError | Some s \<Rightarrow> Inr (cleantxt s))"

text \<open>Words: what \<^verbatim>\<open>split()\<close> returns, non-empty runs without whitespace.\<close>

definition words :: "ustr list \<Rightarrow> bool" where
  "words ws \<longleftrightarrow> (\<forall>w\<in>set ws. w \<noteq> [] \<and> (\<forall>c\<in>set w. \<not> is_space c))"

section \<open>More of the string library\<close>

text \<open>\<^verbatim>\<open>s.find(sub)\<close>: the least index where \<open>sub\<close> starts, or \<open>-1\<close>.\<close>

fun py_find :: "ustr \<Rightarrow> ustr \<Rightarrow> int" where
  "py_find sub [] = (if sub = [] then 0 else - 1)"
| "py_find sub (c # cs) =
     (if prefix sub (c # cs) then 0
      else (let r = py_find sub cs in if r = - 1 then - 1 else r + 1))"

text \<open>
  \<^verbatim>\<open>s.split(sep)\<close> for a non-empty separator: empty pieces are kept, and the empty string
  gives one empty piece. (Python raises on an empty separator; the two call sites pass the
  literals \<^verbatim>\<open>'/'\<close> and \<^verbatim>\<open>', '\<close>, and here an empty separator never matches.)
\<close>

function py_split :: "ustr \<Rightarrow> ustr \<Rightarrow> ustr list" where
  "py_split sep [] = [[]]"
| "py_split sep (c # cs) =
     (if sep \<noteq> [] \<and> prefix sep (c # cs)
      then [] # py_split sep (drop (length sep) (c # cs))
      else (case py_split sep cs of [] \<Rightarrow> [[c]] | w # ws \<Rightarrow> (c # w) # ws))"
  by pat_completeness auto
termination
  by (relation "measure (\<lambda>(sep, s). length s)") (auto simp: neq_Nil_conv)

text \<open>
  \<^verbatim>\<open>int(s)\<close> on a string, base 10: surrounding whitespace is dropped, one sign is allowed,
  then decimal digits with single underscores between them. Only the ASCII digits are
  covered (Python also reads the other Unicode decimal digits), the interpreter's limit on
  the number of digits is left out, and the text of the library's error message is
  shortened.
\<close>

definition is_digit :: "nat \<Rightarrow> bool" where
  "is_digit c \<longleftrightarrow> 48 \<le> c \<and> c \<le> 57"

fun int_digits :: "int \<Rightarrow> ustr \<Rightarrow> int option" where
  "int_digits acc [] = Some acc"
| "int_digits acc [c] = (if is_digit c then Some (10 * acc + int (c - 48)) else None)"
| "int_digits acc (c # d # ds) =
     (if is_digit c then int_digits (10 * acc + int (c - 48)) (d # ds)
      else if c = 95 \<and> is_digit d then int_digits (10 * acc + int (d - 48)) ds
      else None)"

definition py_int :: "ustr \<Rightarrow> py_error + int" where
  "py_int s =
     (let t = py_strip is_space s;
          neg = (t \<noteq> [] \<and> hd t = 45);
          r = (if t \<noteq> [] \<and> (hd t = 45 \<or> hd t = 43) then tl t else t)
      in if r \<noteq> [] \<and> is_digit (hd r)
         then (case int_digits 0 r of
                 Some n \<Rightarrow> Inr (if neg then - n else n)
               | None \<Rightarrow> Inl (ValueError (u ''invalid literal for int() with base 10'')))
         else Inl (ValueError (u ''invalid literal for int() with base 10'')))"

section \<open>Configuration tables\<close>

text \<open>
  The converters named by \<^verbatim>\<open>convertTo\<close>. \<^verbatim>\<open>int\<close> is the builtin; the other five come from
  \<^verbatim>\<open>intelark.converters\<close> and are a parameter \<open>ext\<close> of the extractor: a function that
  returns a converted value or raises.
\<close>

datatype converter = Int_conv | SpeedToHz | SizeToBytes | ToList | ToPackage | ToTDP

definition convertTo :: "ustr \<Rightarrow> converter option" where
  "convertTo = map_of
    [(u ''NumPCIExpressPorts'', Int_conv),
     (u ''MaxCPUs'', Int_conv),
     (u ''NumMemoryChannels'', Int_conv),
     (u ''CoreCount'', Int_conv),
     (u ''ThreadCount'', Int_conv),
     (u ''NumUSBPorts'', Int_conv),
     (u ''NumSATAPorts'', Int_conv),
     (u ''SATA6PortCount'', Int_conv),
     (u ''ClockSpeed'', SpeedToHz),
     (u ''GraphicsFreq'', SpeedToHz),
     (u ''GraphicsMaxFreq'', SpeedToHz),
     (u ''ClockSpeedMax'', SpeedToHz),
     (u ''TurboBoostMaxTechMaxFreq'', SpeedToHz),
     (u ''GraphicsMaxMem'', SizeToBytes),
     (u ''NumDisplaysSupported'', Int_conv),
     (u ''MaxMem'', SizeToBytes),
     (u ''EmbeddedDramMB'', SizeToBytes),
     (u ''MaxMemoryBandwidth'', SizeToBytes),
     (u ''UltraPathInterconnectLinks'', Int_conv),
     (u ''AVX512FusedMultiplyAddUnits'', Int_conv),
     (u ''InstructionSetExtensions'', ToList),
     (u ''DiscreteGraphicsComputeUnitCount'', Int_conv),
     (u ''DiscreteNumDisplaysSupported'', Int_conv),
     (u ''MemoryMaxSpeedMhz'', SpeedToHz),
     (u ''PackageSize'', ToPackage),
     (u ''MaxTDP'', ToTDP),
     (u ''BusNumPorts'', Int_conv)]"

definition skipIfValue :: "ustr list" where
  "skipIfValue = [u ''View now'', u ''Additional Information URL'', u ''Datasheet'']"

definition skipIfKey :: "ustr list" where
  "skipIfKey =
     [u ''Product Brief'', u ''Additional Information URL'', u ''Datasheet'',
      u ''Product Collection'', u ''Code Name'']"

section \<open>Records\<close>

text \<open>
  A stored value is a Boolean, \<^verbatim>\<open>None\<close>, the cleaned string, or what a converter returned.
  The dictionary \<^verbatim>\<open>specs\<close> holds, under one namespace of keys, the identity fields, one
  dictionary per section header, and later \<^verbatim>\<open>id\<close> and \<^verbatim>\<open>socket\<close>. A header is what
  \<^verbatim>\<open>.get()\<close> returned, so it may be \<^verbatim>\<open>None\<close>.
\<close>

datatype 'c val = VBool bool | VNone | VStr ustr | VInt int | VConv 'c

type_synonym 'c spec_section = "ustr \<rightharpoonup> 'c val"

datatype 'c field = FStr ustr | FInt int | FSec "'c spec_section" | FVal "'c val"

type_synonym 'c specs = "ustr option \<rightharpoonup> 'c field"

type_synonym legends = "ustr option \<rightharpoonup> (ustr \<rightharpoonup> ustr)"

text \<open>
  Modelled from the spec: \<^verbatim>\<open>intelark.items\<close> is not among the sources. Its three classes
  are the three record kinds of the output sink, told apart by their tag; an item holds
  the entries the dictionary had when the item was built.
\<close>

datatype 'c item =
    CPULegendItem legends
  | CPUSpecsUnknownItem "'c specs"
  | CPUSpecsItem "'c specs"

section \<open>The parsed product page\<close>

text \<open>
  The response is what the framework's queries return on it: the URL and the path
  component \<^verbatim>\<open>urlsplit\<close> gives for it, the text of the current-page breadcrumb, and the
  blocks under \<^verbatim>\<open>processors-specifications\<close>. A block has the text of its link (the
  download block), its header text and its rows; a row has its label and data texts.
  Each text is the result of \<^verbatim>\<open>.get()\<close>: \<open>None\<close> when the node is missing.
\<close>

record row =
  tech_label :: "ustr option"
  tech_data :: "ustr option"

record block =
  link_text :: "ustr option"
  heading :: "ustr option"
  rows :: "row list"

record response =
  url :: ustr
  url_path :: ustr
  current_page :: "ustr option"
  blocks :: "block list"

section \<open>The page extractor\<close>

text \<open>Line 106: the seventh segment of the path, read as an integer.\<close>

definition arkid_of_path :: "ustr \<Rightarrow> py_error + int" where
  "arkid_of_path p =
     (let segs = py_split (u ''/'') (py_strip (\<lambda>c. c = 47) p)
      in if 6 < length segs then py_int (segs ! 6) else Inl IndexError)"

text \<open>Applying the converter registered for a key (line 160).\<close>

definition apply_conv ::
  "(converter \<Rightarrow> ustr \<Rightarrow> py_error + 'c) \<Rightarrow> converter \<Rightarrow> ustr \<Rightarrow> py_error + 'c val" where
  "apply_conv ext c v =
     (case c of
        Int_conv \<Rightarrow> (case py_int v of Inl e \<Rightarrow> Inl e | Inr n \<Rightarrow> Inr (VInt n))
      | _ \<Rightarrow> (case ext c v of Inl e \<Rightarrow> Inl e | Inr x \<Rightarrow> Inr (VConv x)))"

text \<open>
  Lines 151 to 165: the typing of a cleaned value. A \<^verbatim>\<open>ValueError\<close> of the converter is
  caught and raised again with the key and the value in its message; any other exception
  leaves the function as it is.
\<close>

definition type_value ::
  "(converter \<Rightarrow> ustr \<Rightarrow> py_error + 'c) \<Rightarrow> ustr \<Rightarrow> ustr \<Rightarrow> py_error + 'c val" where
  "type_value ext k v =
     (if v = u ''Yes'' then Inr (VBool True)
      else if v = u ''No'' then Inr (VBool False)
      else if v = [] then Inr VNone
      else (case convertTo k of
              Some c \<Rightarrow>
                (case apply_conv ext c v of
                   Inl (ValueError m) \<Rightarrow> Inl (ValueError (u ''FAILED: '' @ k @ u '': '' @ v))
                 | Inl e \<Rightarrow> Inl e
                 | Inr x \<Rightarrow> Inr x)
            | None \<Rightarrow> Inr (VStr v)))"

text \<open>
  Lines 135 to 167, one row under the header \<open>h\<close>. The state is the pair of \<^verbatim>\<open>specs\<close> and
  \<^verbatim>\<open>legends\<close>. An exception ends the generator before its first \<^verbatim>\<open>yield\<close>, so the state
  is dropped with it.
\<close>

definition parse_row ::
  "(converter \<Rightarrow> ustr \<Rightarrow> py_error + 'c) \<Rightarrow> ustr option \<Rightarrow> 'c specs \<times> legends \<Rightarrow> row
     \<Rightarrow> py_error + ('c specs \<times> legends)" where
  "parse_row ext h st r =
     (case tech_label r of
        None \<Rightarrow> Inl AttributeError
      | Some k0 \<Rightarrow>
          let k = py_strip is_space k0 in
          if k \<in> set skipIfKey then Inr st
          else (case snd st h of
                  None \<Rightarrow> Inl KeyError
                | Some lg \<Rightarrow>
                    let legends' = (snd st)(h \<mapsto> lg(k \<mapsto> cleantxt k)) in
                    (case tech_data r of
                       None \<Rightarrow> Inl TypeError
                     | Some v0 \<Rightarrow>
                         let v = cleantxt (py_strip is_space v0) in
                         if v \<in> set skipIfValue then Inr (fst st, legends')
                         else (case type_value ext k v of
                                 Inl e \<Rightarrow> Inl e
                               | Inr x \<Rightarrow>
                                   (case fst st h of
                                      None \<Rightarrow> Inl KeyError
                                    | Some (FSec sec) \<Rightarrow>
                                        Inr ((fst st)(h \<mapsto> FSec (sec(k \<mapsto> x))), legends')
                                    | Some _ \<Rightarrow> Inl TypeError)))))"

fun parse_rows ::
  "(converter \<Rightarrow> ustr \<Rightarrow> py_error + 'c) \<Rightarrow> ustr option \<Rightarrow> 'c specs \<times> legends \<Rightarrow> row list
     \<Rightarrow> py_error + ('c specs \<times> legends)" where
  "parse_rows ext h st [] = Inr st"
| "parse_rows ext h st (r # rs) =
     (case parse_row ext h st r of Inl e \<Rightarrow> Inl e | Inr st' \<Rightarrow> parse_rows ext h st' rs)"

text \<open>Lines 126 to 129: a header not yet among the keys of \<^verbatim>\<open>specs\<close> gets its two dictionaries.\<close>

definition add_header :: "ustr option \<Rightarrow> 'c specs \<times> legends \<Rightarrow> 'c specs \<times> legends" where
  "add_header h st =
     (if fst st h = None then ((fst st)(h \<mapsto> FSec Map.empty), (snd st)(h \<mapsto> Map.empty)) else st)"

text \<open>Lines 123 to 167, one block.\<close>

definition parse_block ::
  "(converter \<Rightarrow> ustr \<Rightarrow> py_error + 'c) \<Rightarrow> 'c specs \<times> legends \<Rightarrow> block
     \<Rightarrow> py_error + ('c specs \<times> legends)" where
  "parse_block ext st b =
     (if link_text b = Some (u ''Download Specifications'') then Inr st
      else parse_rows ext (heading b) (add_header (heading b) st) (rows b))"

fun parse_blocks ::
  "(converter \<Rightarrow> ustr \<Rightarrow> py_error + 'c) \<Rightarrow> 'c specs \<times> legends \<Rightarrow> block list
     \<Rightarrow> py_error + ('c specs \<times> legends)" where
  "parse_blocks ext st [] = Inr st"
| "parse_blocks ext st (b # bs) =
     (case parse_block ext st b of Inl e \<Rightarrow> Inl e | Inr st' \<Rightarrow> parse_blocks ext st' bs)"

text \<open>Lines 105 to 167: everything \<^verbatim>\<open>parse_specs\<close> does before its first \<^verbatim>\<open>yield\<close>.\<close>

definition collect ::
  "(converter \<Rightarrow> ustr \<Rightarrow> py_error + 'c) \<Rightarrow> response \<Rightarrow> py_error + ('c specs \<times> legends)" where
  "collect ext resp =
     (case arkid_of_path (url_path resp) of
        Inl e \<Rightarrow> Inl e
      | Inr arkcpuid \<Rightarrow>
          (case cleantxt_call (current_page resp) of
             Inl e \<Rightarrow> Inl e
           | Inr cpuname \<Rightarrow>
               parse_blocks ext
                 ([Some (u ''URL'') \<mapsto> FStr (url resp),
                   Some (u ''name'') \<mapsto> FStr cpuname,
                   Some (u ''arkid'') \<mapsto> FInt arkcpuid], Map.empty)
                 (blocks resp)))"

text \<open>
  \<^verbatim>\<open>specs[h]\<close> used as a dictionary. Only the identity fields, \<^verbatim>\<open>id\<close> and \<^verbatim>\<open>socket\<close> hold
  anything else, and the headers looked up below are none of these.
\<close>

definition section_at :: "'c specs \<Rightarrow> ustr \<Rightarrow> py_error + 'c spec_section" where
  "section_at specs h =
     (case specs (Some h) of
        None \<Rightarrow> Inl KeyError
      | Some (FSec sec) \<Rightarrow> Inr sec
      | Some _ \<Rightarrow> Inl TypeError)"

text \<open>Lines 182 to 185: the processor number becomes the field \<^verbatim>\<open>id\<close>.\<close>

definition hoist_id :: "'c specs \<Rightarrow> 'c spec_section \<Rightarrow> 'c specs" where
  "hoist_id specs es =
     (case es (u ''Processor Number'') of
        None \<Rightarrow> specs
      | Some v \<Rightarrow>
          (specs(Some (u ''id'') \<mapsto> FVal v))
            (Some (u ''Essentials'') \<mapsto> FSec (es(u ''Processor Number'' := None))))"

text \<open>
  Lines 171 to 196: the items yielded, in order, and the exception that ended the
  generator, if one did.
\<close>

definition emit :: "'c specs \<Rightarrow> legends \<Rightarrow> 'c item list \<times> py_error option" where
  "emit specs legends =
     (let out = [CPULegendItem legends] in
      case section_at specs (u ''Package Specifications'') of
        Inl e \<Rightarrow> (out, Some e)
      | Inr ps \<Rightarrow>
          let has_socket = (u ''Sockets Supported'' \<in> dom ps) in
          (case section_at specs (u ''Essentials'') of
             Inl e \<Rightarrow> (out, Some e)
           | Inr es \<Rightarrow>
               let specs1 = hoist_id specs es in
               if \<not> has_socket then (out @ [CPUSpecsUnknownItem specs1], None)
               else (case section_at specs1 (u ''Package Specifications'') of
                       Inl e \<Rightarrow> (out, Some e)
                     | Inr ps1 \<Rightarrow>
                         (case ps1 (u ''Sockets Supported'') of
                            None \<Rightarrow> (out, Some KeyError)
                          | Some (VStr s) \<Rightarrow>
                              let sockets = py_split (u '', '') s;
                                  specs2 = specs1(Some (u ''Package Specifications'') \<mapsto>
                                             FSec (ps1(u ''Sockets Supported'' := None)))
                              in (out @ map (\<lambda>socket. CPUSpecsItem
                                              (specs2(Some (u ''socket'') \<mapsto> FStr socket)))
                                        sockets, None)
                          | Some _ \<Rightarrow> (out, Some AttributeError)))))"

definition parse_specs ::
  "(converter \<Rightarrow> ustr \<Rightarrow> py_error + 'c) \<Rightarrow> response \<Rightarrow> 'c item list \<times> py_error option" where
  "parse_specs ext resp =
     (case collect ext resp of
        Inl e \<Rightarrow> ([], Some e)
      | Inr (specs, legends) \<Rightarrow> emit specs legends)"

section \<open>The discovery walker\<close>

text \<open>
  A series page: its URL, the text of the first \<^verbatim>\<open>hidden-crumb-xs\<close> link and the targets of
  the links inside the product rows. A request stands for
  \<^verbatim>\<open>scrapy.Request(response.urljoin(href), callback)\<close>: it keeps the page URL and the
  target as they were given.
\<close>

record listing =
  page_url :: ustr
  crumb :: "ustr option"
  hrefs :: "ustr list"

datatype callback = Parse_series | Parse_specs

datatype request = Request ustr ustr callback

definition parse_series :: "listing \<Rightarrow> request list \<times> py_error option" where
  "parse_series resp =
     (case crumb resp of
        None \<Rightarrow> ([], Some AttributeError)
      | Some t \<Rightarrow>
          if py_strip is_space t \<noteq> u ''Processors''
          then ([], Some (CloseSpider (u ''Processors not found in crumb'')))
          else (map (\<lambda>link. Request (page_url resp) link Parse_specs)
                    (filter (\<lambda>link. py_find (u ''/products/'') link \<noteq> - 1) (hrefs resp)),
                None))"

section \<open>Seeded spiders\<close>

record spider =
  start_urls :: "ustr list"

definition CpuSpecSpider_init :: "ustr option \<Rightarrow> py_error + spider" where
  "CpuSpecSpider_init url0 =
     (let url = (if url0 = Some [] then None else url0) in
      case url of
        None \<Rightarrow> Inl (ValueError (u ''Invalid url given''))
      | Some s \<Rightarrow>
          if py_find (u ''/products/'') s = - 1
          then Inl (ValueError (u ''/products/ not found from url '' @ s))
          else Inr \<lparr>start_urls = [s]\<rparr>)"

definition SeriesSpider_init :: "ustr option \<Rightarrow> py_error + spider" where
  "SeriesSpider_init url0 =
     (let url = (if url0 = Some [] then None else url0) in
      case url of
        None \<Rightarrow> Inl (ValueError (u ''Invalid url given''))
      | Some s \<Rightarrow>
          if py_find (u ''/products/'') s = - 1
          then Inl (ValueError (u ''/products/ not found from url '' @ s))
          else if py_find (u ''/series/'') s = - 1
          then Inl (ValueError (u ''/series/ not found from url '' @ s))
          else Inr \<lparr>start_urls = [s]\<rparr>)"

section \<open>Invariants of the two dictionaries\<close>

text \<open>
  What holds of \<^verbatim>\<open>specs\<close> and \<^verbatim>\<open>legends\<close> all through the loop over the blocks: a header has a
  legend group exactly when it has a section; apart from the three identity fields every
  entry of \<^verbatim>\<open>specs\<close> is a section; and no skipped key is in a section or a legend group.
\<close>

definition legends_match :: "'c specs \<times> legends \<Rightarrow> bool" where
  "legends_match st \<longleftrightarrow> (\<forall>h. (snd st h \<noteq> None) = (\<exists>sec. fst st h = Some (FSec sec)))"

definition identity_keys :: "ustr option set" where
  "identity_keys = {Some (u ''URL''), Some (u ''name''), Some (u ''arkid'')}"

definition sections_only :: "'c specs \<times> legends \<Rightarrow> bool" where
  "sections_only st \<longleftrightarrow>
     (\<forall>h f. fst st h = Some f \<longrightarrow> h \<notin> identity_keys \<longrightarrow> (\<exists>sec. f = FSec sec))"


section \<open>Reading the items\<close>

text \<open>
  The dictionary of a product record (the legend record has none), its entry under a
  top-level key, and the absence of a row key from every group of an item.
\<close>

fun record_of :: "'c item \<Rightarrow> 'c specs option" where
  "record_of (CPULegendItem lg) = None"
| "record_of (CPUSpecsUnknownItem r) = Some r"
| "record_of (CPUSpecsItem r) = Some r"

definition entry :: "ustr \<Rightarrow> 'c item \<Rightarrow> 'c field option" where
  "entry k i = (case record_of i of None \<Rightarrow> None | Some r \<Rightarrow> r (Some k))"


section \<open>Sample pages\<close>

text \<open>
  Pages on which the statements below are run. \<open>no_converters\<close> is an environment in which
  every converter of \<^verbatim>\<open>intelark.converters\<close> raises \<^verbatim>\<open>ValueError\<close>; the builtin \<^verbatim>\<open>int\<close> is not
  part of it.
\<close>

definition no_converters :: "converter \<Rightarrow> ustr \<Rightarrow> py_error + unit" where
  "no_converters c v = Inl (ValueError (u ''unsupported''))"

definition page_q6600 :: response where
  "page_q6600 =
     \<lparr>url = u ''https://ark.intel.com/content/www/us/en/ark/products/29765/q6600.html'',
      url_path = u ''/content/www/us/en/ark/products/29765/q6600.html'',
      current_page = Some (u ''Intel Core2 Quad Processor Q6600''),
      blocks =
        [\<lparr>link_text = Some (u ''Download Specifications''), heading = None, rows = []\<rparr>,
         \<lparr>link_text = None, heading = Some (u ''Essentials''),
          rows = [\<lparr>tech_label = Some (u ''Processor Number''), tech_data = Some (u ''Q6600'')\<rparr>,
                  \<lparr>tech_label = Some (u ''Code Name''), tech_data = Some (u ''Kentsfield'')\<rparr>,
                  \<lparr>tech_label = Some (u ''Support''), tech_data = Some (u ''View now'')\<rparr>]\<rparr>,
         \<lparr>link_text = None, heading = Some (u ''Package Specifications''),
          rows = [\<lparr>tech_label = Some (u ''Sockets Supported''),
                   tech_data = Some (u ''LGA775, PLGA775'')\<rparr>]\<rparr>]\<rparr>"

definition page_no_essentials :: response where
  "page_no_essentials =
     \<lparr>url = u ''https://ark.intel.com/content/www/us/en/ark/products/1/a.html'',
      url_path = u ''/content/www/us/en/ark/products/1/a.html'',
      current_page = Some (u ''A''),
      blocks =
        [\<lparr>link_text = None, heading = Some (u ''Package Specifications''),
          rows = [\<lparr>tech_label = Some (u ''Sockets Supported''), tech_data = Some (u ''LGA775'')\<rparr>]\<rparr>]\<rparr>"

definition page_id_block :: response where
  "page_id_block =
     \<lparr>url = u ''https://ark.intel.com/content/www/us/en/ark/products/2/b.html'',
      url_path = u ''/content/www/us/en/ark/products/2/b.html'',
      current_page = Some (u ''B''),
      blocks =
        [\<lparr>link_text = None, heading = Some (u ''Essentials''),
          rows = [\<lparr>tech_label = Some (u ''Status''), tech_data = Some (u ''Launched'')\<rparr>]\<rparr>,
         \<lparr>link_text = None, heading = Some (u ''Package Specifications''), rows = []\<rparr>,
         \<lparr>link_text = None, heading = Some (u ''id''), rows = []\<rparr>]\<rparr>"

definition page_zero :: response where
  "page_zero =
     \<lparr>url = u ''https://ark.intel.com/content/www/us/en/ark/products/0/c.html'',
      url_path = u ''/content/www/us/en/ark/products/0/c.html'',
      current_page = Some (u ''C''),
      blocks =
        [\<lparr>link_text = None, heading = Some (u ''Essentials''), rows = []\<rparr>,
         \<lparr>link_text = None, heading = Some (u ''Package Specifications''), rows = []\<rparr>]\<rparr>"


definition q6600_specs :: "unit specs" where
  "q6600_specs =
     [Some (u ''URL'') \<mapsto> FStr (u ''https://ark.intel.com/content/www/us/en/ark/products/29765/q6600.html''),
      Some (u ''name'') \<mapsto> FStr (u ''Core2 Quad Processor Q6600''),
      Some (u ''arkid'') \<mapsto> FInt 29765,
      Some (u ''Essentials'') \<mapsto> FSec [u ''Processor Number'' \<mapsto> VStr (u ''Q6600'')],
      Some (u ''Package Specifications'') \<mapsto>
        FSec [u ''Sockets Supported'' \<mapsto> VStr (u ''LGA775, PLGA775'')]]"

definition q6600_legends :: legends where
  "q6600_legends =
     [Some (u ''Essentials'') \<mapsto>
        [u ''Processor Number'' \<mapsto> u ''Processor Number'', u ''Support'' \<mapsto> u ''Support''],
      Some (u ''Package Specifications'') \<mapsto>
        [u ''Sockets Supported'' \<mapsto> u ''Sockets Supported'']]"

definition zero_specs :: "unit specs" where
  "zero_specs =
     [Some (u ''URL'') \<mapsto> FStr (u ''https://ark.intel.com/content/www/us/en/ark/products/0/c.html''),
      Some (u ''name'') \<mapsto> FStr (u ''C''),
      Some (u ''arkid'') \<mapsto> FInt 0,
      Some (u ''Essentials'') \<mapsto> FSec Map.empty,
      Some (u ''Package Specifications'') \<mapsto> FSec Map.empty]"

definition zero_legends :: legends where
  "zero_legends =
     [Some (u ''Essentials'') \<mapsto> Map.empty, Some (u ''Package Specifications'') \<mapsto> Map.empty]"

definition q6600_record :: "ustr \<Rightarrow> unit specs" where
  "q6600_record socket =
     (hoist_id q6600_specs [u ''Processor Number'' \<mapsto> VStr (u ''Q6600'')])
       (Some (u ''Package Specifications'') \<mapsto>
          FSec ([u ''Sockets Supported'' \<mapsto> VStr (u ''LGA775, PLGA775'')]
                  (u ''Sockets Supported'' := None)),
        Some (u ''socket'') \<mapsto> FStr socket)"

section \<open>Facts about the string functions\<close>

lemma py_replace_absent:
  "old \<noteq> [] \<Longrightarrow> \<not> sublist old s \<Longrightarrow> py_replace old new s = s"
  by (induction s) (auto simp: sublist_Cons_right)

lemma py_replace_char: "py_replace [g] [] s = filter (\<lambda>c. c \<noteq> g) s"
  by (induction s) auto

lemma length_py_replace_le: "old \<noteq> [] \<Longrightarrow> length (py_replace old [] s) \<le> length s"
proof (induction old "[]::nat list" s rule: py_replace.induct)
  case (1 old)
  then show ?case by simp
next
  case (2 old c cs)
  then show ?case by (auto simp: le_SucI intro: order_trans)
qed

lemma length_py_replace_less:
  "old \<noteq> [] \<Longrightarrow> sublist old s \<Longrightarrow> length (py_replace old [] s) < length s"
proof (induction s)
  case Nil
  then show ?case by simp
next
  case (Cons c cs)
  show ?case
  proof (cases "prefix old (c # cs)")
    case True
    have "length (py_replace old [] (drop (length old) (c # cs))) \<le> length (drop (length old) (c # cs))"
      using Cons.prems(1) by (rule length_py_replace_le)
    also have "\<dots> < length (c # cs)" using Cons.prems(1) by (cases old) auto
    finally show ?thesis using True Cons.prems(1) by simp
  next
    case False
    then have "sublist old cs" using Cons.prems(2) by (simp add: sublist_Cons_right)
    then show ?thesis using False Cons by simp
  qed
qed

lemma words_Nil: "words []"
  by (simp add: words_def)

lemma words_Cons: "words (w # ws) \<longleftrightarrow> w \<noteq> [] \<and> (\<forall>c\<in>set w. \<not> is_space c) \<and> words ws"
  by (simp add: words_def)

lemma words_split_ws: "words (split_ws s)"
proof (induction s rule: split_ws.induct)
  case 1
  show ?case by (simp add: words_Nil)
next
  case (2 c cs)
  let ?tw = "takeWhile (\<lambda>x. \<not> is_space x) cs"
  let ?dw = "dropWhile (\<lambda>x. \<not> is_space x) cs"
  show ?case
  proof (cases "is_space c")
    case True
    then show ?thesis using 2(1) by simp
  next
    case False
    have ih: "words (split_ws ?dw)" using False by (rule 2(2))
    have tw: "\<And>x. x \<in> set ?tw \<Longrightarrow> \<not> is_space x"
      by (drule set_takeWhileD) simp
    have "split_ws (c # cs) = (c # ?tw) # split_ws ?dw" using False by simp
    moreover have "words ((c # ?tw) # split_ws ?dw)"
      unfolding words_Cons using ih tw False by auto
    ultimately show ?thesis by simp
  qed
qed

lemma set_split_ws: "w \<in> set (split_ws s) \<Longrightarrow> set w \<subseteq> set s"
  by (induction s arbitrary: w rule: split_ws.induct)
     (auto split: if_splits dest: set_takeWhileD set_dropWhileD)

lemma is_space_32 [simp]: "is_space 32" by (simp add: is_space_def)

lemma drop_nonspace: "\<forall>c\<in>set l. \<not> is_space c \<Longrightarrow> dropWhile (\<lambda>x. \<not> is_space x) l = []"
  by simp

lemma take_nonspace: "\<forall>c\<in>set l. \<not> is_space c \<Longrightarrow> takeWhile (\<lambda>x. \<not> is_space x) l = l"
  by simp

lemma take_nonspace_app:
  "\<forall>c\<in>set l. \<not> is_space c \<Longrightarrow> takeWhile (\<lambda>x. \<not> is_space x) (l @ 32 # r) = l"
  by (induction l) auto

lemma drop_nonspace_app:
  "\<forall>c\<in>set l. \<not> is_space c \<Longrightarrow> dropWhile (\<lambda>x. \<not> is_space x) (l @ 32 # r) = 32 # r"
  by (induction l) auto

lemma split_ws_word_app:
  "w \<noteq> [] \<Longrightarrow> \<forall>c\<in>set w. \<not> is_space c \<Longrightarrow> split_ws (w @ 32 # r) = w # split_ws r"
  by (cases w) (simp_all add: take_nonspace_app drop_nonspace_app)

lemma split_ws_word:
  "w \<noteq> [] \<Longrightarrow> \<forall>c\<in>set w. \<not> is_space c \<Longrightarrow> split_ws w = [w]"
  by (cases w) (simp_all add: take_nonspace drop_nonspace)

lemma split_ws_join: "words ws \<Longrightarrow> split_ws (py_join [32] ws) = ws"
proof (induction "[32::nat]" ws rule: py_join.induct)
  case 1
  then show ?case by simp
next
  case (2 w)
  then show ?case by (simp add: words_def split_ws_word)
next
  case (3 w v va)
  have w: "w \<noteq> []" "\<forall>c\<in>set w. \<not> is_space c" using 3(2) by (simp_all add: words_def)
  have "words (v # va)" using 3(2) by (simp add: words_def)
  then have "split_ws (py_join [32] (v # va)) = v # va" by (rule 3(1))
  then show ?case using w by (simp add: split_ws_word_app del: split_ws.simps)
qed

lemma py_strip_id:
  "s = [] \<or> (\<not> p (hd s) \<and> \<not> p (last s)) \<Longrightarrow> py_strip p s = s"
proof (cases s)
  case Nil
  then show ?thesis by (simp add: py_strip_def)
next
  case (Cons c cs)
  assume "s = [] \<or> (\<not> p (hd s) \<and> \<not> p (last s))"
  then have h: "\<not> p c" and l: "\<not> p (last s)" using Cons by simp_all
  have "dropWhile p s = s" using h Cons by simp
  moreover obtain x xs where r: "rev s = x # xs" using Cons by (cases "rev s") auto
  have "hd (rev s) = last s" by (rule hd_rev)
  then have "x = last s" using r by simp
  then have "dropWhile p (x # xs) = x # xs" using l by simp
  then have "dropWhile p (rev s) = rev s" by (simp only: r)
  ultimately show ?thesis by (simp add: py_strip_def)
qed

lemma py_join_ends:
  "words ws \<Longrightarrow> ws \<noteq> [] \<Longrightarrow>
     py_join [32] ws \<noteq> [] \<and> hd (py_join [32] ws) = hd (hd ws) \<and>
     last (py_join [32] ws) = last (last ws)"
proof (induction "[32::nat]" ws rule: py_join.induct)
  case 1
  then show ?case by simp
next
  case (2 w)
  then show ?case by (simp add: words_def)
next
  case (3 w v va)
  have "words (v # va)" using 3(2) by (simp add: words_def)
  then have "py_join [32] (v # va) \<noteq> []" "last (py_join [32] (v # va)) = last (last (v # va))"
    using 3(1) by simp_all
  moreover have "w \<noteq> []" using 3(2) by (simp add: words_def)
  ultimately show ?case by simp
qed

lemma py_strip_join: "words ws \<Longrightarrow> py_strip is_space (py_join [32] ws) = py_join [32] ws"
proof (cases "ws = []")
  case True
  then show ?thesis by (simp add: py_strip_def)
next
  case False
  assume w: "words ws"
  have all: "\<And>x. x \<in> set ws \<Longrightarrow> x \<noteq> [] \<and> (\<forall>c\<in>set x. \<not> is_space c)"
    using w by (simp add: words_def)
  have "hd ws \<in> set ws" using False by simp
  then have "\<not> is_space (hd (hd ws))" using all [of "hd ws"] by simp
  moreover have "last ws \<in> set ws" using False by simp
  then have "\<not> is_space (last (last ws))" using all [of "last ws"] by simp
  ultimately have "\<not> is_space (hd (hd ws))" "\<not> is_space (last (last ws))" .
  then show ?thesis using py_join_ends [OF w False] by (intro py_strip_id) simp
qed

lemma set_py_join: "set (py_join sep ws) \<subseteq> set sep \<union> \<Union> (set ` set ws)"
  by (induction sep ws rule: py_join.induct) auto

lemma length_py_strip: "length (py_strip p s) \<le> length s"
proof -
  have "length (dropWhile p (rev (dropWhile p s))) \<le> length (rev (dropWhile p s))"
    by (rule length_dropWhile_le)
  also have "\<dots> \<le> length s" by (simp add: length_dropWhile_le)
  finally show ?thesis by (simp add: py_strip_def)
qed

lemma length_join_split:
  "length (py_join [32] (split_ws s)) + (if s \<noteq> [] \<and> is_space (hd s) then 1 else 0) \<le> length s"
proof (induction s rule: split_ws.induct)
  case 1
  show ?case by simp
next
  case (2 c cs)
  show ?case
  proof (cases "is_space c")
    case True
    then show ?thesis using 2(1) by (simp split: if_splits)
  next
    case False
    let ?tw = "takeWhile (\<lambda>x. \<not> is_space x) cs"
    let ?dw = "dropWhile (\<lambda>x. \<not> is_space x) cs"
    have len: "length ?tw + length ?dw = length cs"
      by (metis length_append takeWhile_dropWhile_id)
    show ?thesis
    proof (cases "split_ws ?dw")
      case Nil
      then show ?thesis using False len by simp
    next
      case (Cons r rs)
      have ne: "?dw \<noteq> []"
      proof
        assume "?dw = []"
        then have "split_ws ?dw = []" by (simp only: split_ws.simps)
        then show False using Cons by simp
      qed
      then have "is_space (hd ?dw)" using hd_dropWhile [of "\<lambda>x. \<not> is_space x" cs] by simp
      then have "length (py_join [32] (split_ws ?dw)) + 1 \<le> length ?dw"
        using 2(2) [OF False] ne by simp
      then show ?thesis using False len Cons by simp
    qed
  qed
qed

lemma cleantxt_alt:
  "cleantxt s = py_strip is_space (py_join [32] (split_ws
     (filter (\<lambda>c. c \<noteq> 0x2021) (filter (\<lambda>c. c \<noteq> 0xAE) (filter (\<lambda>c. c \<noteq> 0x2122)
       (py_replace (u ''Intel'') [] s))))))"
  by (simp add: cleantxt_def Let_def py_replace_char u_def)

lemma cleantxt_join:
  "cleantxt s = py_join [32] (split_ws
     (filter (\<lambda>c. c \<noteq> 0x2021) (filter (\<lambda>c. c \<noteq> 0xAE) (filter (\<lambda>c. c \<noteq> 0x2122)
       (py_replace (u ''Intel'') [] s)))))"
  unfolding cleantxt_alt by (rule py_strip_join) (rule words_split_ws)

lemma cleantxt_glyph_free:
  assumes "g = 0x2122 \<or> g = 0xAE \<or> g = 0x2021"
  shows "g \<notin> set (cleantxt s)"
proof
  let ?v = "filter (\<lambda>c. c \<noteq> 0x2021) (filter (\<lambda>c. c \<noteq> 0xAE) (filter (\<lambda>c. c \<noteq> 0x2122)
       (py_replace (u ''Intel'') [] s)))"
  assume "g \<in> set (cleantxt s)"
  then have "g \<in> set [32] \<union> \<Union> (set ` set (split_ws ?v))"
    using set_py_join [of "[32]" "split_ws ?v"] unfolding cleantxt_join by blast
  moreover have "g \<noteq> 32" using assms by auto
  ultimately obtain w where "w \<in> set (split_ws ?v)" "g \<in> set w" by auto
  then have "g \<in> set ?v" using set_split_ws by blast
  then show False using assms by auto
qed

lemma length_cleantxt: "length (cleantxt s) \<le> length (py_replace (u ''Intel'') [] s)"
proof -
  let ?v1 = "py_replace (u ''Intel'') [] s"
  let ?v = "filter (\<lambda>c. c \<noteq> 0x2021) (filter (\<lambda>c. c \<noteq> 0xAE) (filter (\<lambda>c. c \<noteq> 0x2122) ?v1))"
  have "length (cleantxt s) \<le> length ?v"
    unfolding cleantxt_join using length_join_split [of ?v] by (simp split: if_splits)
  also have "\<dots> \<le> length (filter (\<lambda>c. c \<noteq> 0xAE) (filter (\<lambda>c. c \<noteq> 0x2122) ?v1))"
    by (rule length_filter_le)
  also have "\<dots> \<le> length (filter (\<lambda>c. c \<noteq> 0x2122) ?v1)"
    by (rule length_filter_le)
  also have "\<dots> \<le> length ?v1"
    by (rule length_filter_le)
  finally show ?thesis .
qed

lemma cleantxt_stable:
  assumes "\<not> sublist (u ''Intel'') (cleantxt s)"
  shows "cleantxt (cleantxt s) = cleantxt s"
proof -
  let ?t = "cleantxt s"
  obtain ws where ws: "words ws" "?t = py_join [32] ws"
    using cleantxt_join words_split_ws by blast
  have "u ''Intel'' \<noteq> []" by (simp add: u_def)
  then have 1: "py_replace (u ''Intel'') [] ?t = ?t"
    using assms by (rule py_replace_absent)
  have 2: "filter (\<lambda>c. c \<noteq> g) ?t = ?t" if "g = 0x2122 \<or> g = 0xAE \<or> g = 0x2021" for g
    using cleantxt_glyph_free [OF that, of s] by (auto simp: filter_id_conv)
  have 3: "filter (\<lambda>c. c \<noteq> 0x2021) (filter (\<lambda>c. c \<noteq> 0xAE) (filter (\<lambda>c. c \<noteq> 0x2122) ?t)) = ?t"
    using 2 [of "0x2122"] 2 [of "0xAE"] 2 [of "0x2021"] by simp
  have "cleantxt ?t = py_join [32] (split_ws ?t)"
    unfolding cleantxt_join [of ?t] by (simp only: 1 3)
  also have "\<dots> = py_join [32] ws" using ws by (simp add: split_ws_join)
  finally show ?thesis using ws by simp
qed

lemma cleantxt_unstable:
  assumes "sublist (u ''Intel'') (cleantxt s)"
  shows "cleantxt (cleantxt s) \<noteq> cleantxt s"
proof -
  have "u ''Intel'' \<noteq> []" by (simp add: u_def)
  then have "length (py_replace (u ''Intel'') [] (cleantxt s)) < length (cleantxt s)"
    using assms by (rule length_py_replace_less)
  then have "length (cleantxt (cleantxt s)) < length (cleantxt s)"
    using length_cleantxt [of "cleantxt s"] by simp
  then show ?thesis by auto
qed

lemma py_find_ge: "- 1 \<le> py_find sub s"
  by (induction s) (auto simp: Let_def)

lemma py_find_absent: "py_find sub s = - 1 \<longleftrightarrow> \<not> sublist sub s"
proof (induction s)
  case Nil
  then show ?case by simp
next
  case (Cons c cs)
  have "py_find sub cs + 1 \<noteq> - 1" using py_find_ge [of sub cs] by simp
  then show ?case using Cons by (simp add: Let_def sublist_Cons_right)
qed

section \<open>Facts about the row and block loops\<close>

lemma parse_row_cases [consumes 1, case_names skip_key skip_value store]:
  assumes "parse_row ext h st r = Inr st'"
  obtains
    (skip_key) k0 where
      "tech_label r = Some k0" "py_strip is_space k0 \<in> set skipIfKey" "st' = st"
  | (skip_value) k0 lg v0 where
      "tech_label r = Some k0" "py_strip is_space k0 \<notin> set skipIfKey"
      "snd st h = Some lg" "tech_data r = Some v0"
      "cleantxt (py_strip is_space v0) \<in> set skipIfValue"
      "st' = (fst st, (snd st)(h \<mapsto> lg(py_strip is_space k0 \<mapsto> cleantxt (py_strip is_space k0))))"
  | (store) k0 lg v0 x sec where
      "tech_label r = Some k0" "py_strip is_space k0 \<notin> set skipIfKey"
      "snd st h = Some lg" "tech_data r = Some v0"
      "cleantxt (py_strip is_space v0) \<notin> set skipIfValue"
      "type_value ext (py_strip is_space k0) (cleantxt (py_strip is_space v0)) = Inr x"
      "fst st h = Some (FSec sec)"
      "st' = ((fst st)(h \<mapsto> FSec (sec(py_strip is_space k0 \<mapsto> x))),
              (snd st)(h \<mapsto> lg(py_strip is_space k0 \<mapsto> cleantxt (py_strip is_space k0))))"
proof -
  let ?L = "\<lambda>k0 lg. (snd st)(h \<mapsto> lg(py_strip is_space k0 \<mapsto> cleantxt (py_strip is_space k0)))"
  obtain k0 where l: "tech_label r = Some k0"
    using assms by (cases "tech_label r") (simp_all add: parse_row_def Let_def)
  show thesis
  proof (cases "py_strip is_space k0 \<in> set skipIfKey")
    case True
    then have "st' = st" using assms l by (auto simp: parse_row_def Let_def)
    then show thesis using l True by (rule skip_key [rotated 2])
  next
    case nk: False
    obtain lg where g: "snd st h = Some lg"
      using assms l nk by (cases "snd st h") (simp_all add: parse_row_def Let_def)
    obtain v0 where d: "tech_data r = Some v0"
      using assms l nk g by (cases "tech_data r") (simp_all add: parse_row_def Let_def)
    show thesis
    proof (cases "cleantxt (py_strip is_space v0) \<in> set skipIfValue")
      case True
      then have "st' = (fst st, ?L k0 lg)"
        using assms l nk g d by (auto simp: parse_row_def Let_def)
      then show thesis using l nk g d True by (rule skip_value [rotated 5])
    next
      case nv: False
      have eq: "(case type_value ext (py_strip is_space k0) (cleantxt (py_strip is_space v0)) of
                  Inl e \<Rightarrow> Inl e
                | Inr x \<Rightarrow> (case fst st h of None \<Rightarrow> Inl KeyError
                     | Some (FSec sec) \<Rightarrow> Inr ((fst st)(h \<mapsto> FSec (sec(py_strip is_space k0 \<mapsto> x))), ?L k0 lg)
                     | Some _ \<Rightarrow> Inl TypeError)) = Inr st'"
        using assms l nk g d nv by (auto simp: parse_row_def Let_def)
      then obtain x where x: "type_value ext (py_strip is_space k0) (cleantxt (py_strip is_space v0)) = Inr x"
        by (cases "type_value ext (py_strip is_space k0) (cleantxt (py_strip is_space v0))") simp_all
      from eq x obtain f where f: "fst st h = Some f" by (cases "fst st h") simp_all
      from eq x f obtain sec where sec: "f = FSec sec" by (cases f) simp_all
      have "st' = ((fst st)(h \<mapsto> FSec (sec(py_strip is_space k0 \<mapsto> x))), ?L k0 lg)"
        using eq x f sec by simp
      then show thesis using l nk g d nv x f sec by (intro store [of k0 lg v0 x sec]) simp_all
    qed
  qed
qed

lemma parse_rows_invariant:
  assumes step: "\<And>st r st'. P st \<Longrightarrow> parse_row ext h st r = Inr st' \<Longrightarrow> P st'"
  shows "P st \<Longrightarrow> parse_rows ext h st rs = Inr st' \<Longrightarrow> P st'"
proof (induction rs arbitrary: st)
  case Nil
  then show ?case by simp
next
  case (Cons r rs)
  from Cons.prems(2) obtain st1 where r: "parse_row ext h st r = Inr st1"
    and rs: "parse_rows ext h st1 rs = Inr st'"
    by (auto split: sum.splits)
  have "P st1" using Cons.prems(1) r by (rule step)
  then show ?case using rs by (rule Cons.IH)
qed

lemma parse_blocks_invariant:
  assumes row: "\<And>h st r st'. P st \<Longrightarrow> parse_row ext h st r = Inr st' \<Longrightarrow> P st'"
    and hdr: "\<And>h st. P st \<Longrightarrow> h \<in> H \<Longrightarrow> P (add_header h st)"
  shows "P st \<Longrightarrow> parse_blocks ext st bs = Inr st' \<Longrightarrow>
         (\<forall>b\<in>set bs. link_text b \<noteq> Some (u ''Download Specifications'') \<longrightarrow> heading b \<in> H) \<Longrightarrow>
         P st'"
proof (induction bs arbitrary: st)
  case Nil
  then show ?case by simp
next
  case (Cons b bs)
  from Cons.prems(2) obtain st1 where b: "parse_block ext st b = Inr st1"
    and bs: "parse_blocks ext st1 bs = Inr st'"
    by (auto split: sum.splits)
  have "P st1"
  proof (cases "link_text b = Some (u ''Download Specifications'')")
    case True
    then show ?thesis using b Cons.prems(1) by (simp add: parse_block_def)
  next
    case False
    then have rows: "parse_rows ext (heading b) (add_header (heading b) st) (rows b) = Inr st1"
      using b by (simp add: parse_block_def)
    have "heading b \<in> H" using Cons.prems(3) False by simp
    then have p: "P (add_header (heading b) st)" using Cons.prems(1) by (intro hdr)
    have "\<And>s r s'. P s \<Longrightarrow> parse_row ext (heading b) s r = Inr s' \<Longrightarrow> P s'" by (rule row)
    from parse_rows_invariant [where P = P, OF this p rows] show ?thesis .
  qed
  moreover have "\<forall>b\<in>set bs. link_text b \<noteq> Some (u ''Download Specifications'') \<longrightarrow> heading b \<in> H"
    using Cons.prems(3) by simp
  ultimately show ?case using bs Cons.IH by blast
qed

section \<open>Invariants are kept by the loops\<close>

lemma legends_match_row:
  assumes "legends_match st" "parse_row ext h st r = Inr st'"
  shows "legends_match st'"
  using assms(2)
proof (cases rule: parse_row_cases)
  case (skip_key k0)
  then show ?thesis using assms(1) by simp
next
  case (skip_value k0 lg v0)
  then show ?thesis using assms(1) by (auto simp: legends_match_def)
next
  case (store k0 lg v0 x sec)
  then show ?thesis using assms(1) by (auto simp: legends_match_def)
qed

lemma legends_match_header: "legends_match st \<Longrightarrow> legends_match (add_header h st)"
  by (auto simp: legends_match_def add_header_def)

lemma sections_only_row:
  assumes "sections_only st" "parse_row ext h st r = Inr st'"
  shows "sections_only st'"
  using assms(2)
proof (cases rule: parse_row_cases)
  case (skip_key k0)
  then show ?thesis using assms(1) by simp
next
  case (skip_value k0 lg v0)
  then show ?thesis using assms(1) by (simp add: sections_only_def)
next
  case (store k0 lg v0 x sec)
  then show ?thesis using assms(1) by (auto simp: sections_only_def)
qed

lemma sections_only_header: "sections_only st \<Longrightarrow> sections_only (add_header h st)"
  by (auto simp: sections_only_def add_header_def)





lemma absent_row:
  assumes "fst st h0 = None" "parse_row ext h st r = Inr st'"
  shows "fst st' h0 = None"
  using assms(2)
proof (cases rule: parse_row_cases)
  case (skip_key k0)
  then show ?thesis using assms(1) by simp
next
  case (skip_value k0 lg v0)
  then show ?thesis using assms(1) by simp
next
  case (store k0 lg v0 x sec)
  then show ?thesis using assms(1) by auto
qed

lemma absent_header: "fst st h0 = None \<Longrightarrow> h \<in> - {h0} \<Longrightarrow> fst (add_header h st) h0 = None"
  by (auto simp: add_header_def)

lemma key_neq:
  "u ''Package Specifications'' \<noteq> u ''Essentials''"
  "u ''Package Specifications'' \<noteq> u ''id''"
  "u ''Package Specifications'' \<noteq> u ''socket''"
  "u ''Essentials'' \<noteq> u ''id''"
  "u ''Essentials'' \<noteq> u ''socket''"
  "u ''id'' \<noteq> u ''socket''"
  "u ''arkid'' \<noteq> u ''id''"
  "u ''arkid'' \<noteq> u ''socket''"
  "u ''arkid'' \<noteq> u ''Essentials''"
  "u ''arkid'' \<noteq> u ''Package Specifications''"
  by (simp_all add: u_def)

lemma not_identity_key:
  "Some (u ''Package Specifications'') \<notin> identity_keys"
  "Some (u ''Essentials'') \<notin> identity_keys"
  "Some (u ''id'') \<notin> identity_keys"
  "Some (u ''socket'') \<notin> identity_keys"
  by (simp_all add: identity_keys_def u_def)

lemma collect_Inr:
  assumes "collect ext resp = Inr st"
  obtains a nm where "arkid_of_path (url_path resp) = Inr a" "current_page resp = Some nm"
    "parse_blocks ext ([Some (u ''URL'') \<mapsto> FStr (url resp), Some (u ''name'') \<mapsto> FStr (cleantxt nm),
                        Some (u ''arkid'') \<mapsto> FInt a], Map.empty) (blocks resp) = Inr st"
proof -
  obtain a where a: "arkid_of_path (url_path resp) = Inr a"
    using assms by (cases "arkid_of_path (url_path resp)") (simp_all add: collect_def)
  obtain nm where nm: "current_page resp = Some nm"
    using assms a by (cases "current_page resp") (simp_all add: collect_def cleantxt_call_def)
  show thesis using assms a nm by (intro that [of a nm]) (simp_all add: collect_def cleantxt_call_def)
qed

lemma collect_legends_match:
  assumes "collect ext resp = Inr st"
  shows "legends_match st"
  using assms
proof (cases rule: collect_Inr)
  case (1 a nm)
  have "legends_match ([Some (u ''URL'') \<mapsto> FStr (url resp), Some (u ''name'') \<mapsto> FStr (cleantxt nm),
                        Some (u ''arkid'') \<mapsto> FInt a], Map.empty :: legends)"
    by (simp add: legends_match_def)
  then show ?thesis
    using 1(3) by (rule parse_blocks_invariant [where P = legends_match and H = UNIV, rotated 2])
      (auto intro: legends_match_row legends_match_header)
qed

lemma collect_sections_only:
  assumes "collect ext resp = Inr st"
  shows "sections_only st"
  using assms
proof (cases rule: collect_Inr)
  case (1 a nm)
  have "sections_only ([Some (u ''URL'') \<mapsto> FStr (url resp), Some (u ''name'') \<mapsto> FStr (cleantxt nm),
                        Some (u ''arkid'') \<mapsto> FInt a], Map.empty :: legends)"
    by (simp add: sections_only_def identity_keys_def)
  then show ?thesis
    using 1(3) by (rule parse_blocks_invariant [where P = sections_only and H = UNIV, rotated 2])
      (auto intro: sections_only_row sections_only_header)
qed



lemma collect_absent:
  assumes "collect ext resp = Inr st" and "h0 \<notin> identity_keys"
    and "\<forall>b\<in>set (blocks resp). link_text b \<noteq> Some (u ''Download Specifications'') \<longrightarrow> heading b \<noteq> h0"
  shows "fst st h0 = None"
  using assms(1)
proof (cases rule: collect_Inr)
  case (1 a nm)
  let ?P = "\<lambda>st :: 'a specs \<times> legends. fst st h0 = None"
  have "?P ([Some (u ''URL'') \<mapsto> FStr (url resp), Some (u ''name'') \<mapsto> FStr (cleantxt nm),
             Some (u ''arkid'') \<mapsto> FInt a], Map.empty)"
    using assms(2) by (auto simp: identity_keys_def)
  then show ?thesis
    using 1(3) by (rule parse_blocks_invariant [where P = ?P and H = "- {h0}", rotated 2])
      (use assms(3) in \<open>auto intro: absent_row absent_header\<close>)
qed

section \<open>Facts about the yielding part\<close>

lemma section_at_Inr: "section_at specs h = Inr sec \<longleftrightarrow> specs (Some h) = Some (FSec sec)"
  by (auto simp: section_at_def split: option.splits field.splits)

lemma section_at_None: "specs (Some h) = None \<Longrightarrow> section_at specs h = Inl KeyError"
  by (simp add: section_at_def)

lemma hoist_id_other:
  "h \<noteq> Some (u ''id'') \<Longrightarrow> h \<noteq> Some (u ''Essentials'') \<Longrightarrow> hoist_id specs es h = specs h"
  by (simp add: hoist_id_def split: option.splits)

lemma hoist_id_ps:
  "section_at (hoist_id specs es) (u ''Package Specifications'') =
   section_at specs (u ''Package Specifications'')"
  by (simp add: section_at_def hoist_id_other key_neq)

lemma emit_sections:
  assumes "specs (Some (u ''Essentials'')) = Some (FSec es)"
    and "specs (Some (u ''Package Specifications'')) = Some (FSec ps)"
  shows "emit specs legends =
    (case ps (u ''Sockets Supported'') of
       None \<Rightarrow> ([CPULegendItem legends, CPUSpecsUnknownItem (hoist_id specs es)], None)
     | Some (VStr s) \<Rightarrow>
         (CPULegendItem legends #
          map (\<lambda>socket. CPUSpecsItem
                 ((hoist_id specs es)
                    (Some (u ''Package Specifications'') \<mapsto> FSec (ps(u ''Sockets Supported'' := None)),
                     Some (u ''socket'') \<mapsto> FStr socket)))
              (py_split (u '', '') s), None)
     | Some _ \<Rightarrow> ([CPULegendItem legends], Some AttributeError))"
proof -
  have 1: "section_at specs (u ''Package Specifications'') = Inr ps"
    and 2: "section_at specs (u ''Essentials'') = Inr es"
    using assms by (simp_all add: section_at_Inr)
  show ?thesis
    unfolding emit_def Let_def 1 2 hoist_id_ps
    by (auto simp: domIff split: option.splits val.splits)
qed


lemma emit_no_section:
  assumes "specs (Some (u ''Package Specifications'')) = None \<or> specs (Some (u ''Essentials'')) = None"
    and "sections_only (specs, legends)"
  shows "emit specs legends = ([CPULegendItem legends], Some KeyError)"
proof (cases "specs (Some (u ''Package Specifications''))")
  case None
  then show ?thesis by (simp add: emit_def section_at_None)
next
  case (Some f)
  then obtain ps where "f = FSec ps"
    using assms(2) not_identity_key(1) by (auto simp: sections_only_def)
  then have 1: "section_at specs (u ''Package Specifications'') = Inr ps"
    using Some by (simp add: section_at_Inr)
  have "specs (Some (u ''Essentials'')) = None" using assms(1) Some by simp
  then have 2: "section_at specs (u ''Essentials'') = Inl KeyError" by (rule section_at_None)
  show ?thesis unfolding emit_def Let_def 1 2 by simp
qed

section \<open>Splitting a joined list\<close>

lemma py_split_piece:
  "44 \<notin> set w \<Longrightarrow> py_split (u '', '') (w @ u '', '' @ rest) = w # py_split (u '', '') rest"
  by (induction w) (auto simp: u_def)

lemma py_split_last: "44 \<notin> set w \<Longrightarrow> py_split (u '', '') w = [w]"
  by (induction w) (auto simp: u_def)

lemma py_split_join:
  "names \<noteq> [] \<Longrightarrow> \<forall>w\<in>set names. 44 \<notin> set w \<Longrightarrow>
     py_split (u '', '') (py_join (u '', '') names) = names"
proof (induction "u '', ''" names rule: py_join.induct)
  case 1
  then show ?case by simp
next
  case (2 w)
  then show ?case by (simp add: py_split_last)
next
  case (3 w v va)
  then have "py_split (u '', '') (py_join (u '', '') (v # va)) = v # va" by simp
  moreover have "44 \<notin> set w" using 3(3) by simp
  ultimately show ?case by (simp add: py_split_piece del: py_split.simps)
qed

lemma sections_only_lookup:
  "sections_only (specs, legends) \<Longrightarrow> h \<notin> identity_keys \<Longrightarrow> specs h \<noteq> None \<Longrightarrow>
     \<exists>sec. specs h = Some (FSec sec)"
  by (auto simp: sections_only_def)

lemma emit_records:
  assumes "Some r \<in> record_of ` set (fst (emit specs legends))"
  obtains es ps where "specs (Some (u ''Essentials'')) = Some (FSec es)"
    "specs (Some (u ''Package Specifications'')) = Some (FSec ps)"
    "r = hoist_id specs es \<or>
     (\<exists>socket. r = (hoist_id specs es)
        (Some (u ''Package Specifications'') \<mapsto> FSec (ps(u ''Sockets Supported'' := None)),
         Some (u ''socket'') \<mapsto> FStr socket))"
proof -
  obtain ps where ps: "section_at specs (u ''Package Specifications'') = Inr ps"
    using assms by (cases "section_at specs (u ''Package Specifications'')")
      (auto simp: emit_def)
  obtain es where es: "section_at specs (u ''Essentials'') = Inr es"
    using assms ps by (cases "section_at specs (u ''Essentials'')")
      (auto simp: emit_def Let_def)
  have s: "specs (Some (u ''Essentials'')) = Some (FSec es)"
    "specs (Some (u ''Package Specifications'')) = Some (FSec ps)"
    using ps es by (simp_all add: section_at_Inr)
  have "r = hoist_id specs es \<or>
     (\<exists>socket. r = (hoist_id specs es)
        (Some (u ''Package Specifications'') \<mapsto> FSec (ps(u ''Sockets Supported'' := None)),
         Some (u ''socket'') \<mapsto> FStr socket))"
    using assms unfolding emit_sections [OF s]
    by (auto split: option.splits val.splits)
  then show thesis using s that by blast
qed

section \<open>Single rows, and loops over appended lists\<close>












section \<open>Legend entries persist\<close>







section \<open>The sample pages, evaluated\<close>

lemmas eval_simps =
  collect_def arkid_of_path_def py_int_def is_digit_def cleantxt_call_def cleantxt_def
  parse_block_def add_header_def parse_row_def type_value_def convertTo_def skipIfKey_def
  skipIfValue_def u_def py_strip_def is_space_def Let_def

lemma collect_q6600:
  "collect no_converters page_q6600 =
     Inr ([Some (u ''URL'') \<mapsto> FStr (u ''https://ark.intel.com/content/www/us/en/ark/products/29765/q6600.html''),
           Some (u ''name'') \<mapsto> FStr (u ''Core2 Quad Processor Q6600''),
           Some (u ''arkid'') \<mapsto> FInt 29765,
           Some (u ''Essentials'') \<mapsto> FSec [u ''Processor Number'' \<mapsto> VStr (u ''Q6600'')],
           Some (u ''Package Specifications'') \<mapsto>
             FSec [u ''Sockets Supported'' \<mapsto> VStr (u ''LGA775, PLGA775'')]],
          [Some (u ''Essentials'') \<mapsto>
             [u ''Processor Number'' \<mapsto> u ''Processor Number'', u ''Support'' \<mapsto> u ''Support''],
           Some (u ''Package Specifications'') \<mapsto>
             [u ''Sockets Supported'' \<mapsto> u ''Sockets Supported'']])"
  by (simp add: page_q6600_def eval_simps)

lemma collect_no_essentials:
  "collect no_converters page_no_essentials =
     Inr ([Some (u ''URL'') \<mapsto> FStr (u ''https://ark.intel.com/content/www/us/en/ark/products/1/a.html''),
           Some (u ''name'') \<mapsto> FStr (u ''A''),
           Some (u ''arkid'') \<mapsto> FInt 1,
           Some (u ''Package Specifications'') \<mapsto>
             FSec [u ''Sockets Supported'' \<mapsto> VStr (u ''LGA775'')]],
          [Some (u ''Package Specifications'') \<mapsto>
             [u ''Sockets Supported'' \<mapsto> u ''Sockets Supported'']])"
  by (simp add: page_no_essentials_def eval_simps)

lemma collect_id_block:
  "collect no_converters page_id_block =
     Inr ([Some (u ''URL'') \<mapsto> FStr (u ''https://ark.intel.com/content/www/us/en/ark/products/2/b.html''),
           Some (u ''name'') \<mapsto> FStr (u ''B''),
           Some (u ''arkid'') \<mapsto> FInt 2,
           Some (u ''Essentials'') \<mapsto> FSec [u ''Status'' \<mapsto> VStr (u ''Launched'')],
           Some (u ''Package Specifications'') \<mapsto> FSec Map.empty,
           Some (u ''id'') \<mapsto> FSec Map.empty],
          [Some (u ''Essentials'') \<mapsto> [u ''Status'' \<mapsto> u ''Status''],
           Some (u ''Package Specifications'') \<mapsto> Map.empty,
           Some (u ''id'') \<mapsto> Map.empty])"
  by (simp add: page_id_block_def eval_simps)

lemma collect_zero:
  "collect no_converters page_zero =
     Inr ([Some (u ''URL'') \<mapsto> FStr (u ''https://ark.intel.com/content/www/us/en/ark/products/0/c.html''),
           Some (u ''name'') \<mapsto> FStr (u ''C''),
           Some (u ''arkid'') \<mapsto> FInt 0,
           Some (u ''Essentials'') \<mapsto> FSec Map.empty,
           Some (u ''Package Specifications'') \<mapsto> FSec Map.empty],
          [Some (u ''Essentials'') \<mapsto> Map.empty,
           Some (u ''Package Specifications'') \<mapsto> Map.empty])"
  by (simp add: page_zero_def eval_simps)

lemma collect_q6600': "collect no_converters page_q6600 = Inr (q6600_specs, q6600_legends)"
  by (simp add: collect_q6600 q6600_specs_def q6600_legends_def)

lemma collect_zero': "collect no_converters page_zero = Inr (zero_specs, zero_legends)"
  by (simp add: collect_zero zero_specs_def zero_legends_def)

lemma q6600_sections:
  "q6600_specs (Some (u ''Essentials'')) = Some (FSec [u ''Processor Number'' \<mapsto> VStr (u ''Q6600'')])"
  "q6600_specs (Some (u ''Package Specifications'')) =
     Some (FSec [u ''Sockets Supported'' \<mapsto> VStr (u ''LGA775, PLGA775'')])"
  by (simp_all add: q6600_specs_def u_def)

lemma zero_sections:
  "zero_specs (Some (u ''Essentials'')) = Some (FSec Map.empty)"
  "zero_specs (Some (u ''Package Specifications'')) = Some (FSec Map.empty)"
  by (simp_all add: zero_specs_def u_def)

lemma split_sockets: "py_split (u '', '') (u ''LGA775, PLGA775'') = [u ''LGA775'', u ''PLGA775'']"
  by (simp add: u_def)

lemma parse_q6600:
  "parse_specs no_converters page_q6600 =
     ([CPULegendItem q6600_legends, CPUSpecsItem (q6600_record (u ''LGA775'')),
       CPUSpecsItem (q6600_record (u ''PLGA775''))], None)"
  by (simp add: parse_specs_def collect_q6600' emit_sections [OF q6600_sections] split_sockets
        q6600_record_def)

lemma parse_zero:
  "parse_specs no_converters page_zero =
     ([CPULegendItem zero_legends, CPUSpecsUnknownItem (hoist_id zero_specs Map.empty)], None)"
  by (simp add: parse_specs_def collect_zero' emit_sections [OF zero_sections])

section \<open>Text that strips to a plain word\<close>







lemma series_without_crumb:
  "crumb resp = None \<Longrightarrow> parse_series resp = ([], Some AttributeError)"
  by (simp add: parse_series_def)

section \<open>The normalizer: totality and stability\<close>

text \<open>
  C3 (amended). On every string \<^verbatim>\<open>cleantxt\<close> returns a string. A second application changes
  nothing exactly when the first result holds no occurrence of \<^verbatim>\<open>Intel\<close>: the tokens are
  removed in one pass each, so a result can hold an \<^verbatim>\<open>Intel\<close> that only came together when
  an inner token or a glyph was taken out, and the second application removes that one.
\<close>

theorem cleantxt_total_and_stable_iff:
  "cleantxt_call (Some s) = Inr (cleantxt s) \<and>
   (cleantxt (cleantxt s) = cleantxt s \<longleftrightarrow> \<not> sublist (u ''Intel'') (cleantxt s))"
  using cleantxt_stable [of s] cleantxt_unstable [of s]
  by (auto simp: cleantxt_call_def)

theorem cleantxt_total_and_stable_iff_witness:
  "cleantxt_call (Some (u ''Intel Core'')) = Inr (u ''Core'') \<and>
   cleantxt (cleantxt (u ''Intel Core'')) = cleantxt (u ''Intel Core'')"
proof -
  have c: "cleantxt (u ''Intel Core'') = u ''Core''"
    by (simp add: cleantxt_def u_def is_space_def py_strip_def)
  have "\<not> sublist (u ''Intel'') (u ''Core'')"
    by (simp add: u_def sublist_Cons_right)
  then show ?thesis
    using cleantxt_total_and_stable_iff [of "u ''Intel Core''"] by (simp add: c)
qed

text \<open>
  C3 as stated fails: \<^verbatim>\<open>cleantxt("IntIntelel")\<close> is \<^verbatim>\<open>"Intel"\<close>, and \<^verbatim>\<open>cleantxt("Intel")\<close> is
  the empty string.
\<close>

theorem cleantxt_not_idempotent:
  "cleantxt (cleantxt (u ''IntIntelel'')) \<noteq> cleantxt (u ''IntIntelel'')"
  by (simp add: cleantxt_def u_def is_space_def py_strip_def)

section \<open>Seed validation\<close>

text \<open>
  C9. Built on a seed URL without \<^verbatim>\<open>/products/\<close>, either spider raises \<^verbatim>\<open>ValueError\<close> and no
  spider object (hence no start URL to fetch) exists; the series spider also raises when
  \<^verbatim>\<open>/series/\<close> is missing. With the markers present the constructor returns a spider whose
  only start URL is the seed.
\<close>

theorem seed_url_validation:
  "(\<not> sublist (u ''/products/'') s \<longrightarrow>
      (\<exists>m. CpuSpecSpider_init (Some s) = Inl (ValueError m)) \<and>
      (\<exists>m. SeriesSpider_init (Some s) = Inl (ValueError m))) \<and>
   (\<not> sublist (u ''/series/'') s \<longrightarrow> (\<exists>m. SeriesSpider_init (Some s) = Inl (ValueError m))) \<and>
   (sublist (u ''/products/'') s \<longrightarrow> CpuSpecSpider_init (Some s) = Inr \<lparr>start_urls = [s]\<rparr>) \<and>
   (sublist (u ''/products/'') s \<and> sublist (u ''/series/'') s \<longrightarrow>
      SeriesSpider_init (Some s) = Inr \<lparr>start_urls = [s]\<rparr>)"
proof -
  have ne: "sublist (u ''/products/'') s \<Longrightarrow> s \<noteq> []" by (auto simp: u_def)
  show ?thesis
    using ne by (auto simp: CpuSpecSpider_init_def SeriesSpider_init_def py_find_absent Let_def)
qed

theorem seed_url_validation_witness:
  "(\<exists>m. CpuSpecSpider_init (Some (u ''https://ark.intel.com/'')) = Inl (ValueError m)) \<and>
   (\<exists>m. SeriesSpider_init (Some (u ''https://ark.intel.com/'')) = Inl (ValueError m)) \<and>
   (\<exists>m. SeriesSpider_init (Some (u ''/content/www/us/en/ark/products/97129/x.html''))
          = Inl (ValueError m)) \<and>
   CpuSpecSpider_init (Some (u ''/content/www/us/en/ark/products/97129/x.html''))
     = Inr \<lparr>start_urls = [u ''/content/www/us/en/ark/products/97129/x.html'']\<rparr> \<and>
   SeriesSpider_init (Some (u ''/content/www/us/en/ark/products/series/595/x.html''))
     = Inr \<lparr>start_urls = [u ''/content/www/us/en/ark/products/series/595/x.html'']\<rparr>"
proof -
  have 1: "\<not> sublist (u ''/products/'') (u ''https://ark.intel.com/'')"
    by (simp add: u_def sublist_Cons_right)
  have 2: "\<not> sublist (u ''/series/'') (u ''/content/www/us/en/ark/products/97129/x.html'')"
    by (simp add: u_def sublist_Cons_right)
  have 3: "sublist (u ''/products/'') (u ''/content/www/us/en/ark/products/97129/x.html'')"
    by (simp add: u_def sublist_Cons_right)
  have 4: "sublist (u ''/products/'') (u ''/content/www/us/en/ark/products/series/595/x.html'')"
    by (simp add: u_def sublist_Cons_right)
  have 5: "sublist (u ''/series/'') (u ''/content/www/us/en/ark/products/series/595/x.html'')"
    by (simp add: u_def sublist_Cons_right)
  show ?thesis
    using seed_url_validation [of "u ''https://ark.intel.com/''"]
      seed_url_validation [of "u ''/content/www/us/en/ark/products/97129/x.html''"]
      seed_url_validation [of "u ''/content/www/us/en/ark/products/series/595/x.html''"]
      1 2 3 4 5
    by blast
qed

section \<open>The series walk\<close>



section \<open>Typing of values\<close>



section \<open>Skipped keys and skipped values\<close>



section \<open>A failing converter\<close>



section \<open>The catalogue id\<close>




section \<open>Hoisting the processor number\<close>

text \<open>
  C5 (amended). A product record is only yielded for a page whose dictionary has the section
  \<^verbatim>\<open>Essentials\<close>. When that section holds \<^verbatim>\<open>Processor Number\<close>, every product record has the
  value as its entry \<^verbatim>\<open>id\<close>, and its \<^verbatim>\<open>Essentials\<close> section is the parsed one without that
  key. When the key is absent nothing is hoisted or removed: \<^verbatim>\<open>Essentials\<close> is as parsed,
  and the entry \<^verbatim>\<open>id\<close> is what the loop over the blocks left there, which is nothing unless
  a block of the page is itself headed \<^verbatim>\<open>id\<close>.
\<close>

theorem id_hoisting:
  assumes "collect ext resp = Inr (specs, legends)"
    and "i \<in> set (fst (parse_specs ext resp))" and "record_of i = Some r"
  shows "\<exists>es. specs (Some (u ''Essentials'')) = Some (FSec es) \<and>
           (case es (u ''Processor Number'') of
              Some v \<Rightarrow>
                r (Some (u ''id'')) = Some (FVal v) \<and>
                r (Some (u ''Essentials'')) = Some (FSec (es(u ''Processor Number'' := None)))
            | None \<Rightarrow>
                r (Some (u ''id'')) = specs (Some (u ''id'')) \<and>
                r (Some (u ''Essentials'')) = Some (FSec es) \<and>
                ((\<forall>b\<in>set (blocks resp). link_text b \<noteq> Some (u ''Download Specifications'')
                     \<longrightarrow> heading b \<noteq> Some (u ''id''))
                   \<longrightarrow> r (Some (u ''id'')) = None))"
proof -
  have ps: "parse_specs ext resp = emit specs legends" using assms(1) by (simp add: parse_specs_def)
  have "Some r \<in> record_of ` set (fst (emit specs legends))"
    using assms(2,3) unfolding ps by (metis image_eqI)
  then obtain es ps where s: "specs (Some (u ''Essentials'')) = Some (FSec es)"
    and r: "r = hoist_id specs es \<or>
     (\<exists>socket. r = (hoist_id specs es)
        (Some (u ''Package Specifications'') \<mapsto> FSec (ps(u ''Sockets Supported'' := None)),
         Some (u ''socket'') \<mapsto> FStr socket))"
    by (rule emit_records)
  have rid: "r (Some (u ''id'')) = hoist_id specs es (Some (u ''id''))"
    and ress: "r (Some (u ''Essentials'')) = hoist_id specs es (Some (u ''Essentials''))"
    using r by (auto simp: key_neq key_neq [symmetric])
  have abs: "specs (Some (u ''id'')) = None"
    if "\<forall>b\<in>set (blocks resp). link_text b \<noteq> Some (u ''Download Specifications'')
          \<longrightarrow> heading b \<noteq> Some (u ''id'')"
    using collect_absent [OF assms(1) not_identity_key(3) that] by simp
  show ?thesis
  proof (cases "es (u ''Processor Number'')")
    case None
    then show ?thesis using s rid ress abs by (simp add: hoist_id_def)
  next
    case (Some v)
    then show ?thesis using s rid ress by (simp add: hoist_id_def key_neq key_neq [symmetric])
  qed
qed

theorem id_hoisting_witness:
  "entry (u ''id'') (fst (parse_specs no_converters page_q6600) ! 1) = Some (FVal (VStr (u ''Q6600''))) \<and>
   entry (u ''id'') (fst (parse_specs no_converters page_zero) ! 1) = None"
proof -
  have m: "CPUSpecsItem (q6600_record (u ''LGA775'')) \<in> set (fst (parse_specs no_converters page_q6600))"
    by (simp add: parse_q6600)
  have "q6600_record (u ''LGA775'') (Some (u ''id'')) = Some (FVal (VStr (u ''Q6600'')))"
    using id_hoisting [OF collect_q6600' m, of "q6600_record (u ''LGA775'')"]
    by (auto simp: q6600_sections)
  moreover
  have z: "CPUSpecsUnknownItem (hoist_id zero_specs Map.empty) \<in> set (fst (parse_specs no_converters page_zero))"
    by (simp add: parse_zero)
  have nb: "\<forall>b\<in>set (blocks page_zero). link_text b \<noteq> Some (u ''Download Specifications'')
             \<longrightarrow> heading b \<noteq> Some (u ''id'')"
    by (simp add: page_zero_def u_def)
  have "hoist_id zero_specs Map.empty (Some (u ''id'')) = None"
    using id_hoisting [OF collect_zero' z, of "hoist_id zero_specs Map.empty"] nb
    by (auto simp: zero_sections)
  ultimately show ?thesis by (simp add: parse_q6600 parse_zero entry_def)
qed

text \<open>
  C5 as stated fails on a page that has no \<^verbatim>\<open>Processor Number\<close> and a block headed \<^verbatim>\<open>id\<close>:
  headers and top-level fields share the keys of one dictionary, and the record is yielded
  with that (empty) section as its \<^verbatim>\<open>id\<close>.
\<close>

theorem id_block_kept_under_id:
  "map (entry (u ''id'')) (fst (parse_specs no_converters page_id_block)) = [None, Some (FSec Map.empty)]"
  by (simp add: parse_specs_def collect_id_block emit_def section_at_def hoist_id_def entry_def
        u_def Let_def)

section \<open>One record per socket\<close>

text \<open>
  C1 (amended). Let the page be collected without error, and let its dictionary have both the
  section \<^verbatim>\<open>Essentials\<close> and the section \<^verbatim>\<open>Package Specifications\<close>. If the latter holds
  \<^verbatim>\<open>Sockets Supported\<close> with a string value, the items are the legend record and then one
  \<^verbatim>\<open>CPUSpecsItem\<close> for each piece of the value split at \<^verbatim>\<open>', '\<close>, in order: the same dictionary
  each time (the id hoisted, \<^verbatim>\<open>Sockets Supported\<close> deleted from its section) but for the entry
  \<^verbatim>\<open>socket\<close>. For a value made of N names without a comma, joined by \<^verbatim>\<open>', '\<close>, these are N
  records, one per name. If the key is absent, the items are the legend record and one
  \<^verbatim>\<open>CPUSpecsUnknownItem\<close>, to which no \<^verbatim>\<open>socket\<close> is added: it has none unless a block of the
  page is itself headed \<^verbatim>\<open>socket\<close>.
\<close>

theorem socket_expansion:
  assumes "collect ext resp = Inr (specs, legends)"
    and "specs (Some (u ''Essentials'')) = Some (FSec es)"
    and "specs (Some (u ''Package Specifications'')) = Some (FSec ps)"
  shows "(\<forall>s. ps (u ''Sockets Supported'') = Some (VStr s) \<longrightarrow>
            parse_specs ext resp =
              (CPULegendItem legends #
               map (\<lambda>socket. CPUSpecsItem
                      ((hoist_id specs es)
                         (Some (u ''Package Specifications'') \<mapsto> FSec (ps(u ''Sockets Supported'' := None)),
                          Some (u ''socket'') \<mapsto> FStr socket)))
                   (py_split (u '', '') s), None)) \<and>
         (\<forall>names. names \<noteq> [] \<and> (\<forall>w\<in>set names. 44 \<notin> set w) \<and>
                  ps (u ''Sockets Supported'') = Some (VStr (py_join (u '', '') names)) \<longrightarrow>
            map record_of (fst (parse_specs ext resp)) =
              None # map (\<lambda>socket. Some
                      ((hoist_id specs es)
                         (Some (u ''Package Specifications'') \<mapsto> FSec (ps(u ''Sockets Supported'' := None)),
                          Some (u ''socket'') \<mapsto> FStr socket))) names) \<and>
         (ps (u ''Sockets Supported'') = None \<longrightarrow>
            parse_specs ext resp =
              ([CPULegendItem legends, CPUSpecsUnknownItem (hoist_id specs es)], None) \<and>
            ((\<forall>b\<in>set (blocks resp). link_text b \<noteq> Some (u ''Download Specifications'')
                 \<longrightarrow> heading b \<noteq> Some (u ''socket''))
               \<longrightarrow> hoist_id specs es (Some (u ''socket'')) = None))"
proof -
  have ps: "parse_specs ext resp = emit specs legends" using assms(1) by (simp add: parse_specs_def)
  note e = emit_sections [OF assms(2,3), of legends]
  have "hoist_id specs es (Some (u ''socket'')) = None"
    if "\<forall>b\<in>set (blocks resp). link_text b \<noteq> Some (u ''Download Specifications'')
          \<longrightarrow> heading b \<noteq> Some (u ''socket'')"
  proof -
    have "fst (specs, legends) (Some (u ''socket'')) = None"
      using assms(1) not_identity_key(4) that by (rule collect_absent)
    then show ?thesis by (simp add: hoist_id_other key_neq key_neq [symmetric])
  qed
  then show ?thesis
    unfolding ps e by (auto simp: py_split_join comp_def)
qed

theorem socket_expansion_witness:
  "map (entry (u ''socket'')) (fst (parse_specs no_converters page_q6600))
     = [None, Some (FStr (u ''LGA775'')), Some (FStr (u ''PLGA775''))] \<and>
   map (entry (u ''socket'')) (fst (parse_specs no_converters page_zero)) = [None, None]"
proof -
  have 1: "[u ''Sockets Supported'' \<mapsto> VStr (u ''LGA775, PLGA775'')] (u ''Sockets Supported'')
             = Some (VStr (u ''LGA775, PLGA775'') :: unit val)"
    by simp
  have 2: "(Map.empty :: unit spec_section) (u ''Sockets Supported'') = None" by simp
  have 3: "\<forall>b\<in>set (blocks page_zero). link_text b \<noteq> Some (u ''Download Specifications'')
             \<longrightarrow> heading b \<noteq> Some (u ''socket'')"
    by (simp add: page_zero_def u_def)
  have a: "parse_specs no_converters page_q6600 =
             (CPULegendItem q6600_legends #
              map (\<lambda>socket. CPUSpecsItem
                     ((hoist_id q6600_specs [u ''Processor Number'' \<mapsto> VStr (u ''Q6600'')])
                        (Some (u ''Package Specifications'') \<mapsto>
                           FSec ([u ''Sockets Supported'' \<mapsto> VStr (u ''LGA775, PLGA775'')]
                                   (u ''Sockets Supported'' := None)),
                         Some (u ''socket'') \<mapsto> FStr socket)))
                  (py_split (u '', '') (u ''LGA775, PLGA775'')), None)"
    using socket_expansion [OF collect_q6600' q6600_sections] 1 by blast
  have b: "parse_specs no_converters page_zero =
             ([CPULegendItem zero_legends, CPUSpecsUnknownItem (hoist_id zero_specs Map.empty)], None) \<and>
           hoist_id zero_specs Map.empty (Some (u ''socket'')) = None"
    using socket_expansion [OF collect_zero' zero_sections] 2 3 by blast
  show ?thesis
    unfolding a split_sockets using b by (simp add: entry_def)
qed

text \<open>
  C1 as stated fails on a page that has \<^verbatim>\<open>Sockets Supported\<close> = \<^verbatim>\<open>LGA775\<close> in its
  \<^verbatim>\<open>Package Specifications\<close> section and no \<^verbatim>\<open>Essentials\<close> section: the lookup on line 179
  raises \<^verbatim>\<open>KeyError\<close> after the legend record, and no product record is yielded.
\<close>

theorem socket_expansion_without_essentials:
  "map record_of (fst (parse_specs no_converters page_no_essentials)) = [None] \<and>
   snd (parse_specs no_converters page_no_essentials) = Some KeyError"
  by (simp add: parse_specs_def collect_no_essentials emit_def section_at_def u_def)

section \<open>The legend record comes first\<close>

text \<open>
  C10. The legend record is yielded before the two header lookups. When the dictionary
  collected from the page lacks the entry \<^verbatim>\<open>Package Specifications\<close> or the entry
  \<^verbatim>\<open>Essentials\<close>, \<^verbatim>\<open>parse_specs\<close> has yielded exactly the legend record when it ends with
  \<^verbatim>\<open>KeyError\<close>; no product record follows. An unknown-socket record is only yielded when the
  section \<^verbatim>\<open>Package Specifications\<close> exists and has no key \<^verbatim>\<open>Sockets Supported\<close>.
\<close>

theorem legend_emitted_before_lookup:
  assumes "collect ext resp = Inr (specs, legends)"
  shows "(specs (Some (u ''Package Specifications'')) = None \<or> specs (Some (u ''Essentials'')) = None
            \<longrightarrow> parse_specs ext resp = ([CPULegendItem legends], Some KeyError)) \<and>
         (\<forall>r. CPUSpecsUnknownItem r \<in> set (fst (parse_specs ext resp)) \<longrightarrow>
            (\<exists>ps. specs (Some (u ''Package Specifications'')) = Some (FSec ps) \<and>
                  ps (u ''Sockets Supported'') = None))"
proof -
  have ps: "parse_specs ext resp = emit specs legends" using assms by (simp add: parse_specs_def)
  have so: "sections_only (specs, legends)" using assms by (rule collect_sections_only)
  have 1: "parse_specs ext resp = ([CPULegendItem legends], Some KeyError)"
    if "specs (Some (u ''Package Specifications'')) = None \<or> specs (Some (u ''Essentials'')) = None"
    unfolding ps using that so by (rule emit_no_section)
  have 2: "\<exists>ps. specs (Some (u ''Package Specifications'')) = Some (FSec ps) \<and>
                 ps (u ''Sockets Supported'') = None"
    if r: "CPUSpecsUnknownItem r \<in> set (fst (parse_specs ext resp))" for r
  proof -
    have "\<not> (specs (Some (u ''Package Specifications'')) = None \<or>
              specs (Some (u ''Essentials'')) = None)"
    proof
      assume "specs (Some (u ''Package Specifications'')) = None \<or>
              specs (Some (u ''Essentials'')) = None"
      then have "parse_specs ext resp = ([CPULegendItem legends], Some KeyError)" by (rule 1)
      then show False using r by simp
    qed
    then have "specs (Some (u ''Package Specifications'')) \<noteq> None"
      "specs (Some (u ''Essentials'')) \<noteq> None" by simp_all
    then obtain ps es where s: "specs (Some (u ''Package Specifications'')) = Some (FSec ps)"
      "specs (Some (u ''Essentials'')) = Some (FSec es)"
      using sections_only_lookup [OF so not_identity_key(1)]
        sections_only_lookup [OF so not_identity_key(2)] by blast
    show ?thesis
      using r s unfolding ps emit_sections [OF s(2) s(1)]
      by (auto split: option.splits val.splits)
  qed
  show ?thesis using 1 2 by blast
qed

theorem legend_emitted_before_lookup_witness:
  "parse_specs no_converters page_no_essentials =
     ([CPULegendItem [Some (u ''Package Specifications'') \<mapsto>
                        [u ''Sockets Supported'' \<mapsto> u ''Sockets Supported'']]],
      Some KeyError)"
proof -
  have "[Some (u ''URL'') \<mapsto> FStr (u ''https://ark.intel.com/content/www/us/en/ark/products/1/a.html''),
         Some (u ''name'') \<mapsto> FStr (u ''A''),
         Some (u ''arkid'') \<mapsto> FInt 1,
         Some (u ''Package Specifications'') \<mapsto>
           FSec [u ''Sockets Supported'' \<mapsto> VStr (u ''LGA775'')]] (Some (u ''Essentials''))
          = (None :: unit field option)"
    by (simp add: u_def)
  then show ?thesis
    using legend_emitted_before_lookup [OF collect_no_essentials] by blast
qed

end
